theory Spec2Isabelle
  imports Complex_Main "HOL-Library.Product_Lexorder" "HOL-Library.Monad_Syntax"
begin

section \<open>Values of the remote source and of the persisted store\<close>

text \<open>
  A raw item is a Python dictionary obtained from JSON. Dictionaries are association
  lists read with \<open>map_of\<close>; Python floats are modelled by the real numbers they denote
  (no rounding, no NaN, no infinity); strings are character lists.
\<close>

datatype json =
    JNull
  | JBool bool
  | JInt int
  | JFloat real
  | JStr string
  | JArr "json list"
  | JObj "(string \<times> json) list"

type_synonym dict = "(string \<times> json) list"

text \<open>\<^verbatim>\<open>d.get(k)\<close>: the value, or \<^verbatim>\<open>None\<close> for a missing key.\<close>

definition dict_get :: "dict \<Rightarrow> string \<Rightarrow> json" where
  "dict_get d k = (case map_of d k of None \<Rightarrow> JNull | Some v \<Rightarrow> v)"

text \<open>\<^verbatim>\<open>d.get(k, dflt)\<close>: the default only stands in for a missing key.\<close>

definition dict_get_default :: "dict \<Rightarrow> string \<Rightarrow> json \<Rightarrow> json" where
  "dict_get_default d k dflt = (case map_of d k of None \<Rightarrow> dflt | Some v \<Rightarrow> v)"

text \<open>\<^verbatim>\<open>d.update(e)\<close>: every entry of \<open>e\<close> is stored into \<open>d\<close>.\<close>

fun dict_set :: "dict \<Rightarrow> string \<Rightarrow> json \<Rightarrow> dict" where
  "dict_set [] k v = [(k, v)]"
| "dict_set ((k', v') # d) k v = (if k' = k then (k, v) # d else (k', v') # dict_set d k v)"

definition dict_update :: "dict \<Rightarrow> dict \<Rightarrow> dict" where
  "dict_update d e = foldl (\<lambda>acc (k, v). dict_set acc k v) d e"

text \<open>Python truthiness, as used by \<^verbatim>\<open>or\<close>, \<^verbatim>\<open>not\<close> and \<^verbatim>\<open>if\<close>.\<close>

fun truthy :: "json \<Rightarrow> bool" where
  "truthy JNull = False"
| "truthy (JBool b) = b"
| "truthy (JInt i) = (i \<noteq> 0)"
| "truthy (JFloat r) = (r \<noteq> 0)"
| "truthy (JStr s) = (s \<noteq> [])"
| "truthy (JArr xs) = (xs \<noteq> [])"
| "truthy (JObj d) = (d \<noteq> [])"

text \<open>\<^verbatim>\<open>a or b\<close> yields \<open>a\<close> when it is truthy and \<open>b\<close> otherwise.\<close>

definition py_or :: "json \<Rightarrow> json \<Rightarrow> json" where
  "py_or a b = (if truthy a then a else b)"

subsection \<open>Decimal printing of integers\<close>

definition digit_char :: "nat \<Rightarrow> char" where
  "digit_char n = ''0123456789'' ! n"

function string_of_nat :: "nat \<Rightarrow> string" where
  "string_of_nat n = (if n < 10 then [digit_char n] else string_of_nat (n div 10) @ [digit_char (n mod 10)])"
  by pat_completeness auto
termination
  by (relation "measure id") auto

definition string_of_int :: "int \<Rightarrow> string" where
  "string_of_int i = (if i < 0 then CHR ''-'' # string_of_nat (nat (- i)) else string_of_nat (nat i))"

text \<open>
  The format \<^verbatim>\<open>:.2f\<close>: two decimals, the nearest hundredth, a tie going to the even
  one.
\<close>

definition round_half_even :: "real \<Rightarrow> int" where
  "round_half_even x =
     (let f = \<lfloor>x\<rfloor> in
      if x - real_of_int f < 1 / 2 then f
      else if 1 / 2 < x - real_of_int f then f + 1
      else if even f then f else f + 1)"

definition format_2f :: "real \<Rightarrow> string" where
  "format_2f r =
     (let cents = nat (round_half_even (\<bar>r\<bar> * 100)) in
      (if r < 0 then ''-'' else []) @ string_of_nat (cents div 100) @ ''.''
        @ [digit_char (cents mod 100 div 10), digit_char (cents mod 10)])"

subsection \<open>The Python library\<close>

text \<open>
  The program relies on library functions that are not part of the repository. Their
  behaviour is a parameter of the model: failure (an exception) is \<open>None\<close>.
\<close>

type_synonym date = "nat \<times> nat \<times> nat"

datatype datetime = Datetime (date_part: date) (clock_part: "nat \<times> nat \<times> nat")

record pylib =
  repr_other :: "json \<Rightarrow> string"
  float_of_string :: "string \<Rightarrow> real option"
  int_of_string :: "string \<Rightarrow> int option"
  int16_other :: "string \<Rightarrow> int option"
  strptime :: "string \<Rightarrow> datetime option"
  fromtimestamp :: "int \<Rightarrow> datetime option"
  argsort_desc :: "datetime list \<Rightarrow> nat list"

text \<open>
  \<^verbatim>\<open>str(v)\<close>, which is also what an f-string prints. Scalars are printed here; the
  printing of floats and of containers is left to the library.
\<close>

fun py_str :: "pylib \<Rightarrow> json \<Rightarrow> string" where
  "py_str lib JNull = ''None''"
| "py_str lib (JBool b) = (if b then ''True'' else ''False'')"
| "py_str lib (JInt i) = string_of_int i"
| "py_str lib (JStr s) = s"
| "py_str lib (JArr []) = ''[]''"
| "py_str lib (JObj []) = ''{}''"
| "py_str lib v = repr_other lib v"

subsection \<open>Conversions and string operations\<close>

text \<open>
  \<^verbatim>\<open>float(i)\<close> of an integer raises \<^verbatim>\<open>OverflowError\<close> beyond the range of a double.
\<close>

definition float_of_int :: "int \<Rightarrow> real option" where
  "float_of_int i = (if \<bar>i\<bar> < 2 ^ 1024 - 2 ^ 970 then Some (real_of_int i) else None)"

text \<open>\<^verbatim>\<open>float(v)\<close>: \<^verbatim>\<open>None\<close> and containers raise \<^verbatim>\<open>TypeError\<close>.\<close>

fun py_float :: "pylib \<Rightarrow> json \<Rightarrow> real option" where
  "py_float lib JNull = None"
| "py_float lib (JBool b) = Some (if b then 1 else 0)"
| "py_float lib (JInt i) = float_of_int i"
| "py_float lib (JFloat r) = Some r"
| "py_float lib (JStr s) = float_of_string lib s"
| "py_float lib (JArr xs) = None"
| "py_float lib (JObj d) = None"

text \<open>\<^verbatim>\<open>int(v)\<close>: a float is truncated towards zero.\<close>

fun py_int :: "pylib \<Rightarrow> json \<Rightarrow> int option" where
  "py_int lib JNull = None"
| "py_int lib (JBool b) = Some (if b then 1 else 0)"
| "py_int lib (JInt i) = Some i"
| "py_int lib (JFloat r) = Some (if 0 \<le> r then \<lfloor>r\<rfloor> else \<lceil>r\<rceil>)"
| "py_int lib (JStr s) = int_of_string lib s"
| "py_int lib (JArr xs) = None"
| "py_int lib (JObj d) = None"

text \<open>
  \<^verbatim>\<open>s.lower()\<close> on the ASCII letters; other characters are kept, which decides every
  comparison with the lower-cased contract address as Python does.
\<close>

definition lower_char :: "char \<Rightarrow> char" where
  "lower_char c =
     (case map_of (zip ''ABCDEFGHIJKLMNOPQRSTUVWXYZ'' ''abcdefghijklmnopqrstuvwxyz'') c of
        None \<Rightarrow> c
      | Some l \<Rightarrow> l)"

definition py_lower :: "string \<Rightarrow> string" where
  "py_lower s = map lower_char s"

text \<open>\<^verbatim>\<open>ts.split('.')[0].replace('Z', '')\<close>.\<close>

definition strip_timestamp :: "string \<Rightarrow> string" where
  "strip_timestamp s = filter (\<lambda>c. c \<noteq> CHR ''Z'') (takeWhile (\<lambda>c. c \<noteq> CHR ''.'') s)"

text \<open>
  Parsing a timestamp field with the format \<^verbatim>\<open>%Y-%m-%dT%H:%M:%S\<close>; a value that is
  not a string has no \<^verbatim>\<open>split\<close> and raises.
\<close>

fun parse_iso :: "pylib \<Rightarrow> json \<Rightarrow> datetime option" where
  "parse_iso lib (JStr s) = strptime lib (strip_timestamp s)"
| "parse_iso lib v = None"

text \<open>\<^verbatim>\<open>s.replace("0x", "")\<close>: every occurrence is removed, scanning from the left.\<close>

fun remove_0x :: "string \<Rightarrow> string" where
  "remove_0x [] = []"
| "remove_0x [c] = [c]"
| "remove_0x (c # d # s) =
     (if c = CHR ''0'' \<and> d = CHR ''x'' then remove_0x s else c # remove_0x (d # s))"

definition hex_digit :: "char \<Rightarrow> nat option" where
  "hex_digit c =
     map_of (zip ''0123456789abcdefABCDEF''
                 [0, 1, 2, 3, 4, 5, 6, 7, 8, 9, 10, 11, 12, 13, 14, 15, 10, 11, 12, 13, 14, 15]) c"

definition hex_value :: "string \<Rightarrow> nat" where
  "hex_value s = foldl (\<lambda>acc c. 16 * acc + the (hex_digit c)) 0 s"

text \<open>
  \<^verbatim>\<open>int(s, 16)\<close>: a non-empty string of hexadecimal digits is read big-endian. What
  Python does with any other string (signs, blanks, underscores, prefixes, or a
  \<^verbatim>\<open>ValueError\<close>) is left to the library.
\<close>

definition py_int16 :: "pylib \<Rightarrow> string \<Rightarrow> int option" where
  "py_int16 lib s =
     (if s \<noteq> [] \<and> list_all (\<lambda>c. hex_digit c \<noteq> None) s then Some (int (hex_value s))
      else int16_other lib s)"

section \<open>Configuration\<close>

definition CONTRACT_ADDRESS :: string where
  "CONTRACT_ADDRESS = ''0x3D4b1b884A7a1E59fE8589a3296EC8f8cBB6f279''"

definition VOTED_TOPIC_0 :: string where
  "VOTED_TOPIC_0 = ''0x452d440efc30dfa14a0ef803ccb55936af860ec6a6960ed27f129bef913f296a''"

definition DEFAULT_DECIMALS :: nat where
  "DEFAULT_DECIMALS = 18"

section \<open>Record identity\<close>

text \<open>
  \<^verbatim>\<open>get_unique_id\<close>: the transaction identifier is chosen by \<^verbatim>\<open>or\<close> (truthiness),
  the index by \<^verbatim>\<open>get\<close> with a default (presence of the key).
\<close>

definition get_unique_id :: "pylib \<Rightarrow> dict \<Rightarrow> string" where
  "get_unique_id lib item =
     (let uid = py_or (py_or (dict_get item ''tx_hash'') (dict_get item ''transaction_hash''))
                      (dict_get item ''hash'');
          idx = py_str lib (dict_get_default item ''index''
                              (dict_get_default item ''log_index'' (JStr ''0'')))
      in py_str lib uid @ ''_'' @ idx)"

section \<open>Size buckets\<close>

text \<open>The \<^verbatim>\<open>if/elif\<close> chain of \<^verbatim>\<open>parse_data\<close> assigning \<^verbatim>\<open>cat, order\<close>.\<close>

definition size_bucket :: "real \<Rightarrow> string \<times> nat" where
  "size_bucket amount =
     (if amount < 0.001 then (''< 0.001'', 1)
      else if amount < 0.01 then (''0.001 - 0.01'', 2)
      else if amount < 0.1 then (''0.01 - 0.1'', 3)
      else if amount < 1 then (''0.1 - 1'', 4)
      else (''1 and above'', 5))"

section \<open>Normalising locks\<close>

record lock_record =
  l_date :: date
  l_ts :: datetime
  l_amount :: real
  l_type :: string
  l_sender :: string
  l_cat :: string
  l_order :: nat

text \<open>The sender of a transfer: the \<^verbatim>\<open>hash\<close> of the \<^verbatim>\<open>from\<close> object, or its printing.\<close>

definition lock_sender :: "pylib \<Rightarrow> dict \<Rightarrow> json" where
  "lock_sender lib tx =
     (case dict_get_default tx ''from'' (JObj []) of
        JObj d \<Rightarrow> dict_get_default d ''hash'' (JStr (py_str lib (JObj d)))
      | v \<Rightarrow> JStr (py_str lib v))"

text \<open>The value converted to an amount: \<^verbatim>\<open>total\<close>, or its \<^verbatim>\<open>value\<close> when it is a dictionary.\<close>

definition lock_raw_val :: "dict \<Rightarrow> json" where
  "lock_raw_val tx =
     (case dict_get tx ''total'' of JObj d \<Rightarrow> dict_get d ''value'' | v \<Rightarrow> v)"

text \<open>
  One iteration of the lock loop of \<^verbatim>\<open>parse_data\<close>. \<open>None\<close> is an item that is skipped:
  by a \<^verbatim>\<open>continue\<close>, or by an exception, which the loop catches. A sender that is not
  a string has no \<^verbatim>\<open>lower\<close> and raises.
\<close>

definition parse_lock :: "pylib \<Rightarrow> dict \<Rightarrow> lock_record option" where
  "parse_lock lib tx =
     (let ts = dict_get tx ''timestamp'' in
      if \<not> truthy ts then None
      else case parse_iso lib ts of
        None \<Rightarrow> None
      | Some dt \<Rightarrow>
          (case py_float lib (py_or (lock_raw_val tx) (JInt 0)) of
             None \<Rightarrow> None
           | Some f \<Rightarrow>
               (let amount = f / 10 ^ DEFAULT_DECIMALS in
                case lock_sender lib tx of
                  JStr sender \<Rightarrow>
                    if py_lower sender = py_lower CONTRACT_ADDRESS then None
                    else (case size_bucket amount of
                            (cat, order) \<Rightarrow>
                              Some \<lparr>l_date = date_part dt, l_ts = dt, l_amount = amount,
                                    l_type = ''lock'', l_sender = sender, l_cat = cat,
                                    l_order = order\<rparr>)
                | _ \<Rightarrow> None)))"

definition process_locks :: "pylib \<Rightarrow> dict list \<Rightarrow> lock_record list" where
  "process_locks lib locks = List.map_filter (parse_lock lib) locks"

section \<open>Normalising votes\<close>

record vote_record =
  v_date :: date
  v_ts :: datetime
  v_voting_power :: real
  v_total_weight :: real
  v_voter :: string
  v_type :: string

text \<open>The local variables of one iteration of the vote loop.\<close>

record vote_fields =
  weight_val :: real
  total_weight_val :: real
  voter_addr :: string
  event_ts :: "int option"
  found_weight :: bool

definition initial_fields :: vote_fields where
  "initial_fields =
     \<lparr>weight_val = 0, total_weight_val = 0, voter_addr = ''Unknown'', event_ts = None,
      found_weight = False\<rparr>"

text \<open>
  METHOD A, one parameter: a parameter that is not a dictionary has no \<^verbatim>\<open>get\<close> and
  raises, as does a value that cannot be converted.
\<close>

fun decode_param :: "pylib \<Rightarrow> vote_fields \<Rightarrow> json \<Rightarrow> vote_fields option" where
  "decode_param lib f (JObj p) =
     (let name = dict_get_default p ''name'' (JStr []); val = dict_get p ''value'' in
      if name = JStr ''weight'' then
        map_option (\<lambda>w. f\<lparr>weight_val := w, found_weight := True\<rparr>) (py_float lib val)
      else if name = JStr ''totalWeight'' then
        map_option (\<lambda>w. f\<lparr>total_weight_val := w\<rparr>) (py_float lib val)
      else if name = JStr ''voter'' then Some (f\<lparr>voter_addr := py_str lib val\<rparr>)
      else if name = JStr ''timestamp'' then
        map_option (\<lambda>t. f\<lparr>event_ts := Some t\<rparr>) (py_int lib val)
      else Some f)"
| "decode_param lib f v = None"

fun decode_params :: "pylib \<Rightarrow> vote_fields \<Rightarrow> json list \<Rightarrow> vote_fields option" where
  "decode_params lib f [] = Some f"
| "decode_params lib f (p # ps) =
     (case decode_param lib f p of None \<Rightarrow> None | Some f' \<Rightarrow> decode_params lib f' ps)"

text \<open>
  METHOD A: only a non-empty dictionary under \<^verbatim>\<open>decoded\<close> is read. Its \<^verbatim>\<open>parameters\<close>
  are iterated: an empty string or dictionary gives no iteration, any other value that
  is not a list raises (not iterable, or its elements have no \<^verbatim>\<open>get\<close>).
\<close>

definition method_a :: "pylib \<Rightarrow> dict \<Rightarrow> vote_fields option" where
  "method_a lib lg =
     (case dict_get lg ''decoded'' of
        JObj d \<Rightarrow>
          if d = [] then Some initial_fields
          else (case dict_get_default d ''parameters'' (JArr []) of
                  JArr ps \<Rightarrow> decode_params lib initial_fields ps
                | JStr s \<Rightarrow> if s = [] then Some initial_fields else None
                | JObj e \<Rightarrow> if e = [] then Some initial_fields else None
                | _ \<Rightarrow> None)
      | _ \<Rightarrow> Some initial_fields)"

text \<open>
  METHOD B, taken when no weight was found: three 64-digit words of \<^verbatim>\<open>data\<close>, and the
  voter from \<^verbatim>\<open>topics[1][26:]\<close>. A \<^verbatim>\<open>data\<close> or a second topic that is not a string
  raises.
\<close>

definition method_b :: "pylib \<Rightarrow> dict \<Rightarrow> json list \<Rightarrow> vote_fields \<Rightarrow> vote_fields option" where
  "method_b lib lg topics f =
     (if found_weight f then Some f
      else case dict_get_default lg ''data'' (JStr []) of
        JStr data \<Rightarrow>
          (let data_hex = remove_0x data in
           if 192 \<le> length data_hex then
             do {
               w \<leftarrow> Option.bind (py_int16 lib (take 64 data_hex)) float_of_int;
               tw \<leftarrow> Option.bind (py_int16 lib (take 64 (drop 64 data_hex))) float_of_int;
               ts \<leftarrow> py_int16 lib (take 64 (drop 128 data_hex));
               voter \<leftarrow> (if 1 < length topics
                          then (case topics ! 1 of
                                  JStr t \<Rightarrow> Some (''0x'' @ drop 26 t)
                                | _ \<Rightarrow> None)
                          else Some (voter_addr f));
               Some (f\<lparr>weight_val := w, total_weight_val := tw, voter_addr := voter,
                       event_ts := Some ts, found_weight := True\<rparr>)
             }
           else Some f)
      | _ \<Rightarrow> None)"

text \<open>The fallback of step 3: the item's own timestamp field.\<close>

definition item_instant :: "pylib \<Rightarrow> dict \<Rightarrow> datetime option" where
  "item_instant lib lg =
     (let ts_str = py_or (dict_get lg ''timestamp'') (dict_get lg ''block_timestamp'') in
      if truthy ts_str then parse_iso lib ts_str else None)"

text \<open>Step 3: a positive event timestamp is converted, otherwise the fallback is used.\<close>

definition resolve_instant :: "pylib \<Rightarrow> dict \<Rightarrow> int option \<Rightarrow> datetime option" where
  "resolve_instant lib lg ets =
     (case ets of
        None \<Rightarrow> item_instant lib lg
      | Some t \<Rightarrow> if t \<noteq> 0 \<and> 0 < t then fromtimestamp lib t else item_instant lib lg)"

definition make_vote :: "datetime \<Rightarrow> vote_fields \<Rightarrow> vote_record" where
  "make_vote dt f =
     \<lparr>v_date = date_part dt, v_ts = dt,
      v_voting_power = weight_val f / 10 ^ DEFAULT_DECIMALS,
      v_total_weight = total_weight_val f / 10 ^ DEFAULT_DECIMALS,
      v_voter = voter_addr f, v_type = ''vote''\<rparr>"

text \<open>
  One iteration of the vote loop. Topics that are not a non-empty list are skipped: a
  falsy value by the \<^verbatim>\<open>continue\<close>, a string because its first character differs from
  the signature, anything else by the exception of \<^verbatim>\<open>topics[0]\<close>.
\<close>

definition parse_vote :: "pylib \<Rightarrow> dict \<Rightarrow> vote_record option" where
  "parse_vote lib lg =
     (case dict_get_default lg ''topics'' (JArr []) of
        JArr topics \<Rightarrow>
          if topics = [] \<or> hd topics \<noteq> JStr VOTED_TOPIC_0 then None
          else do {
            fa \<leftarrow> method_a lib lg;
            f \<leftarrow> method_b lib lg topics fa;
            dt \<leftarrow> resolve_instant lib lg (event_ts f);
            if found_weight f \<and> 0 < weight_val f then Some (make_vote dt f) else None
          }
      | _ \<Rightarrow> None)"

definition process_votes :: "pylib \<Rightarrow> dict list \<Rightarrow> vote_record list" where
  "process_votes lib votes = List.map_filter (parse_vote lib) votes"

section \<open>Aggregation\<close>

text \<open>
  \<^verbatim>\<open>groupby("date")\<close> with a sum and a count: one row per date, in ascending order of
  the dates.
\<close>

definition daily_locks :: "lock_record list \<Rightarrow> (date \<times> real \<times> nat) list" where
  "daily_locks ls =
     map (\<lambda>d. (d, sum_list (map l_amount (filter (\<lambda>r. l_date r = d) ls)),
                  length (filter (\<lambda>r. l_date r = d) ls)))
         (sort (remdups (map l_date ls)))"

definition daily_votes :: "vote_record list \<Rightarrow> (date \<times> real \<times> nat) list" where
  "daily_votes vs =
     map (\<lambda>d. (d, sum_list (map v_voting_power (filter (\<lambda>r. v_date r = d) vs)),
                  length (filter (\<lambda>r. v_date r = d) vs)))
         (sort (remdups (map v_date vs)))"

text \<open>\<^verbatim>\<open>sorted(list(set(...)))\<close> over the dates of both tables.\<close>

definition all_dates :: "(date \<times> real \<times> nat) list \<Rightarrow> (date \<times> real \<times> nat) list \<Rightarrow> date list" where
  "all_dates dl dv = sort (remdups (map fst dl @ map fst dv))"

text \<open>A left join on the date followed by \<^verbatim>\<open>fillna(0)\<close>.\<close>

definition joined :: "(date \<times> real \<times> nat) list \<Rightarrow> date \<Rightarrow> real \<times> nat" where
  "joined tbl d = (case map_of tbl d of None \<Rightarrow> (0, 0) | Some row \<Rightarrow> row)"

fun cumsum_from :: "real \<Rightarrow> real list \<Rightarrow> real list" where
  "cumsum_from acc [] = []"
| "cumsum_from acc (x # xs) = (acc + x) # cumsum_from (acc + x) xs"

definition cumsum :: "real list \<Rightarrow> real list" where
  "cumsum xs = cumsum_from 0 xs"

record daily_row =
  r_date :: date
  r_amount :: real
  r_lock_count :: nat
  r_voting_power :: real
  r_vote_count :: nat
  r_cumulative_locks :: real
  r_cumulative_votes :: real

definition df_main :: "lock_record list \<Rightarrow> vote_record list \<Rightarrow> daily_row list" where
  "df_main ls vs =
     (let dl = daily_locks ls; dv = daily_votes vs; dates = all_dates dl dv;
          amounts = map (\<lambda>d. fst (joined dl d)) dates;
          powers = map (\<lambda>d. fst (joined dv d)) dates
      in map (\<lambda>(d, cl, cv).
                \<lparr>r_date = d, r_amount = fst (joined dl d), r_lock_count = snd (joined dl d),
                 r_voting_power = fst (joined dv d), r_vote_count = snd (joined dv d),
                 r_cumulative_locks = cl, r_cumulative_votes = cv\<rparr>)
             (zip dates (zip (cumsum amounts) (cumsum powers))))"

record dist_row =
  b_cat :: string
  b_order :: nat
  b_tx_count :: nat
  b_amount :: real
  b_legend :: string

text \<open>
  \<^verbatim>\<open>groupby(["cat", "order"])\<close> followed by \<^verbatim>\<open>sort_values("order")\<close>: one row per
  pair that occurs, ascending by order. Distinct categories have distinct orders, so
  the order of the rows is determined.
\<close>

definition dist_df :: "pylib \<Rightarrow> lock_record list \<Rightarrow> dist_row list" where
  "dist_df lib ls =
     map (\<lambda>(c, k).
            (let rs = filter (\<lambda>r. l_cat r = c \<and> l_order r = k) ls;
                 n = length rs; a = sum_list (map l_amount rs)
             in \<lparr>b_cat = c, b_order = k, b_tx_count = n, b_amount = a,
                  b_legend = c @ '' (Txs: '' @ string_of_int (int n) @ '', Total: ''
                             @ format_2f a @ '')''\<rparr>))
         (sort_key snd (remdups (map (\<lambda>r. (l_cat r, l_order r)) ls)))"

text \<open>
  \<^verbatim>\<open>sort_values("ts", ascending=False)\<close>: the rows taken in the order of the indices
  that the library's sort returns.
\<close>

definition sort_values_desc :: "pylib \<Rightarrow> ('a \<Rightarrow> datetime) \<Rightarrow> 'a list \<Rightarrow> 'a list" where
  "sort_values_desc lib ts rows = map (\<lambda>i. rows ! i) (argsort_desc lib (map ts rows))"

record parsed =
  p_main :: "daily_row list"
  p_dist :: "dist_row list"
  p_raw_locks :: "lock_record list"
  p_raw_votes :: "vote_record list"

definition parse_data :: "pylib \<Rightarrow> dict list \<Rightarrow> dict list \<Rightarrow> parsed" where
  "parse_data lib locks votes =
     (let lock_list = process_locks lib locks; vote_list = process_votes lib votes
      in \<lparr>p_main = df_main lock_list vote_list, p_dist = dist_df lib lock_list,
          p_raw_locks = sort_values_desc lib l_ts lock_list,
          p_raw_votes = sort_values_desc lib v_ts vote_list\<rparr>)"

section \<open>Incremental fetch\<close>

text \<open>
  One page request: the request or the decoding of its body raises (\<open>Failed\<close>), or the
  body has the shape the source documents, a list of items and next-page parameters that
  may be absent. The remote source answers a request from its parameters.
\<close>

datatype response = Failed | Page "dict list" "dict option"

type_synonym source = "dict \<Rightarrow> response"

text \<open>
  The body of the \<^verbatim>\<open>for\<close> loop over a page, on the set of known identifiers, the new
  items and the flag \<^verbatim>\<open>stop_fetching\<close>.
\<close>

definition scan_item ::
  "pylib \<Rightarrow> string set \<times> dict list \<times> bool \<Rightarrow> dict \<Rightarrow> string set \<times> dict list \<times> bool" where
  "scan_item lib st item =
     (case st of (ids, new_items, stop_fetching) \<Rightarrow>
        (let uid = get_unique_id lib item in
         if uid \<in> ids then (ids, new_items, True)
         else (insert uid ids, new_items @ [item], stop_fetching)))"

definition scan_page ::
  "pylib \<Rightarrow> string set \<times> dict list \<times> bool \<Rightarrow> dict list \<Rightarrow> string set \<times> dict list \<times> bool" where
  "scan_page lib st items = foldl (scan_item lib) st items"

text \<open>
  The \<^verbatim>\<open>while True\<close> loop. It returns the new items together with the parameters of
  every request it made, in order; a run that never leaves the loop has no result.
\<close>

partial_function (option) fetch_loop ::
  "pylib \<Rightarrow> source \<Rightarrow> dict \<Rightarrow> string set \<Rightarrow> dict list \<Rightarrow> dict list
    \<Rightarrow> (dict list \<times> dict list) option" where
  "fetch_loop lib src params ids new_items reqs =
     (case src params of
        Failed \<Rightarrow> Some (new_items, reqs @ [params])
      | Page items nxt \<Rightarrow>
          if items = [] then Some (new_items, reqs @ [params])
          else (case scan_page lib (ids, new_items, False) items of
                  (ids', new_items', stop_fetching) \<Rightarrow>
                    if stop_fetching then Some (new_items', reqs @ [params])
                    else (case nxt of
                            None \<Rightarrow> Some (new_items', reqs @ [params])
                          | Some np \<Rightarrow>
                              if np = [] then Some (new_items', reqs @ [params])
                              else fetch_loop lib src (dict_update params np) ids' new_items'
                                     (reqs @ [params]))))"

definition fetch_trace ::
  "pylib \<Rightarrow> source \<Rightarrow> dict \<Rightarrow> dict list \<Rightarrow> (dict list \<times> dict list) option" where
  "fetch_trace lib src params existing_items =
     fetch_loop lib src params (set (map (get_unique_id lib) existing_items)) [] []"

definition fetch_incremental :: "pylib \<Rightarrow> source \<Rightarrow> dict \<Rightarrow> dict list \<Rightarrow> dict list option" where
  "fetch_incremental lib src params existing_items =
     map_option fst (fetch_trace lib src params existing_items)"

section \<open>The run\<close>

text \<open>
  The data file holds the two collections; \<open>None\<close> is a file that is missing or cannot
  be read. Saving replaces the file, or leaves it as it was when the write fails.
\<close>

type_synonym store = "(dict list \<times> dict list) option"

definition load_data :: "store \<Rightarrow> dict list \<times> dict list" where
  "load_data st = (case st of None \<Rightarrow> ([], []) | Some (locks, votes) \<Rightarrow> (locks, votes))"

definition save_data :: "bool \<Rightarrow> dict list \<Rightarrow> dict list \<Rightarrow> store \<Rightarrow> store" where
  "save_data writable locks votes st = (if writable then Some (locks, votes) else st)"

definition LOCK_TOKEN :: string where
  "LOCK_TOKEN = ''0x7b7C000000000000000000000000000000000000''"

definition lock_params :: dict where
  "lock_params = [(''filter'', JStr ''to''), (''token'', JStr LOCK_TOKEN)]"

text \<open>
  The main block up to \<^verbatim>\<open>parse_data\<close>: the file after the run and the derived tables.
\<close>

definition main :: "pylib \<Rightarrow> source \<Rightarrow> source \<Rightarrow> bool \<Rightarrow> store \<Rightarrow> (store \<times> parsed) option" where
  "main lib lock_src vote_src writable st =
     (case load_data st of
        (existing_locks, existing_votes) \<Rightarrow>
          do {
            new_locks \<leftarrow> fetch_incremental lib lock_src lock_params existing_locks;
            new_votes \<leftarrow> fetch_incremental lib vote_src [] existing_votes;
            let all_locks = new_locks @ existing_locks;
            let all_votes = new_votes @ existing_votes;
            let st' = (if new_locks \<noteq> [] \<or> new_votes \<noteq> []
                       then save_data writable all_locks all_votes st else st);
            Some (st', parse_data lib all_locks all_votes)
          })"

section \<open>Notions used to state the properties\<close>

text \<open>
  The identifiers known when the item at position \<open>i\<close> of a page is reached: those known
  before the page and those of the items before it.
\<close>

definition known_at :: "pylib \<Rightarrow> string set \<Rightarrow> dict list \<Rightarrow> nat \<Rightarrow> string set" where
  "known_at lib ids items i = ids \<union> get_unique_id lib ` set (take i items)"

definition page_emitted :: "pylib \<Rightarrow> string set \<Rightarrow> dict list \<Rightarrow> dict list" where
  "page_emitted lib ids items =
     map (\<lambda>i. items ! i)
       (filter (\<lambda>i. get_unique_id lib (items ! i) \<notin> known_at lib ids items i) [0..<length items])"

definition page_caught_up :: "pylib \<Rightarrow> string set \<Rightarrow> dict list \<Rightarrow> bool" where
  "page_caught_up lib ids items =
     list_ex (\<lambda>i. get_unique_id lib (items ! i) \<in> known_at lib ids items i) [0..<length items]"

text \<open>
  The states of the loop reached from a state after some pages, none of which ended the
  loop: parameters, known identifiers, new items, requests made.
\<close>

inductive loop_steps ::
  "pylib \<Rightarrow> source \<Rightarrow> dict \<times> string set \<times> dict list \<times> dict list
     \<Rightarrow> dict \<times> string set \<times> dict list \<times> dict list \<Rightarrow> bool"
  for lib :: pylib and src :: source and s :: "dict \<times> string set \<times> dict list \<times> dict list" where
    start: "loop_steps lib src s s"
  | page: "loop_steps lib src s (params, ids, new_items, reqs) \<Longrightarrow>
           src params = Page items (Some np) \<Longrightarrow> items \<noteq> [] \<Longrightarrow> np \<noteq> [] \<Longrightarrow>
           scan_page lib (ids, new_items, False) items = (ids', new_items', False) \<Longrightarrow>
           loop_steps lib src s (dict_update params np, ids', new_items', reqs @ [params])"

text \<open>
  A source that presents the given pages from the given parameters, each page naming
  the next one; after the last page there are no next-page parameters, or an empty page.
\<close>

fun serves :: "source \<Rightarrow> dict \<Rightarrow> dict list list \<Rightarrow> bool" where
  "serves src params [] = (case src params of Failed \<Rightarrow> False | Page its nxt \<Rightarrow> its = [])"
| "serves src params (items # rest) =
     (case src params of
        Failed \<Rightarrow> False
      | Page its nxt \<Rightarrow>
          its = items \<and>
          (case nxt of
             None \<Rightarrow> rest = []
           | Some np \<Rightarrow> if np = [] then rest = [] else serves src (dict_update params np) rest))"

subsection \<open>A library instance for closed examples\<close>

text \<open>
  The examples below run the program on concrete items. Their library reads timestamps
  in the canonical 19-character form and non-negative epoch seconds in UTC, converts
  strings of decimal digits, and sorts stably; the examples stay within these inputs.
\<close>

definition decimal_value :: "string \<Rightarrow> nat option" where
  "decimal_value s =
     (if s \<noteq> [] \<and> list_all (\<lambda>c. c \<in> set ''0123456789'') s
      then Some (foldl (\<lambda>acc c. 10 * acc + the (hex_digit c)) 0 s) else None)"

definition leap_year :: "nat \<Rightarrow> bool" where
  "leap_year y = (y mod 4 = 0 \<and> (y mod 100 \<noteq> 0 \<or> y mod 400 = 0))"

definition days_in_month :: "nat \<Rightarrow> nat \<Rightarrow> nat" where
  "days_in_month y m =
     (if m = 2 then (if leap_year y then 29 else 28)
      else if m = 4 \<or> m = 6 \<or> m = 9 \<or> m = 11 then 30 else 31)"

definition example_strptime :: "string \<Rightarrow> datetime option" where
  "example_strptime s =
     (if length s = 19 \<and> s ! 4 = CHR ''-'' \<and> s ! 7 = CHR ''-'' \<and> s ! 10 = CHR ''T''
         \<and> s ! 13 = CHR '':'' \<and> s ! 16 = CHR '':''
      then do {
        y \<leftarrow> decimal_value (take 4 s);
        m \<leftarrow> decimal_value (take 2 (drop 5 s));
        d \<leftarrow> decimal_value (take 2 (drop 8 s));
        hh \<leftarrow> decimal_value (take 2 (drop 11 s));
        mm \<leftarrow> decimal_value (take 2 (drop 14 s));
        ss \<leftarrow> decimal_value (take 2 (drop 17 s));
        if 1 \<le> y \<and> 1 \<le> m \<and> m \<le> 12 \<and> 1 \<le> d \<and> d \<le> days_in_month y m
           \<and> hh < 24 \<and> mm < 60 \<and> ss < 60
        then Some (Datetime (y, m, d) (hh, mm, ss)) else None
      }
      else None)"

definition civil_from_days :: "nat \<Rightarrow> date" where
  "civil_from_days z =
     (let z' = z + 719468; era = z' div 146097; doe = z' mod 146097;
          yoe = (doe - doe div 1460 + doe div 36524 - doe div 146096) div 365;
          doy = doe - (365 * yoe + yoe div 4 - yoe div 100);
          mp = (5 * doy + 2) div 153;
          d = doy - (153 * mp + 2) div 5 + 1;
          m = (if mp < 10 then mp + 3 else mp - 9);
          y = yoe + era * 400
      in (if m \<le> 2 then y + 1 else y, m, d))"

definition example_fromtimestamp :: "int \<Rightarrow> datetime option" where
  "example_fromtimestamp t =
     (if 0 \<le> t \<and> t < 253402300800
      then (let n = nat t; secs = n mod 86400
            in Some (Datetime (civil_from_days (n div 86400))
                       (secs div 3600, secs mod 3600 div 60, secs mod 60)))
      else None)"

definition example_argsort_desc :: "datetime list \<Rightarrow> nat list" where
  "example_argsort_desc ts =
     map snd (rev (sort_key (\<lambda>(t, i). (date_part t, clock_part t)) (zip ts [0..<length ts])))"

definition example_lib :: pylib where
  "example_lib =
     \<lparr>repr_other = (\<lambda>v. []),
      float_of_string = (\<lambda>s. map_option real (decimal_value s)),
      int_of_string = (\<lambda>s. map_option int (decimal_value s)),
      int16_other = (\<lambda>s. None),
      strptime = example_strptime,
      fromtimestamp = example_fromtimestamp,
      argsort_desc = example_argsort_desc\<rparr>"

subsection \<open>Example sources and items\<close>

text \<open>
  A source for the examples: it presents the given pages one after the other, numbered
  by the parameter \<^verbatim>\<open>page\<close>, and fails from the page \<open>fail_at\<close> on.
\<close>

definition paged_source :: "dict list list \<Rightarrow> nat \<Rightarrow> source" where
  "paged_source pages fail_at params =
     (let i = (case dict_get params ''page'' of JInt n \<Rightarrow> nat n | _ \<Rightarrow> 0) in
      if fail_at \<le> i then Failed
      else if i < length pages
      then Page (pages ! i)
             (if Suc i < length pages then Some [(''page'', JInt (int (Suc i)))] else None)
      else Page [] None)"

definition example_item :: "string \<Rightarrow> int \<Rightarrow> dict" where
  "example_item h i = [(''tx_hash'', JStr h), (''log_index'', JInt i)]"

definition example_pages :: "dict list list" where
  "example_pages =
     [[example_item ''0xa'' 0, example_item ''0xa'' 1, example_item ''0xa'' 2, example_item ''0xa'' 3],
      [example_item ''0xb'' 0, example_item ''0xb'' 1, example_item ''0xb'' 2, example_item ''0xb'' 3]]"

subsection \<open>The record key in the words of the specification\<close>

text \<open>
  Three ways to choose among fields: the value of the first key that the item has, the
  first value that is not \<^verbatim>\<open>None\<close>, and the choice made by a chain of \<^verbatim>\<open>or\<close>.
\<close>

fun first_present :: "dict \<Rightarrow> string list \<Rightarrow> json option" where
  "first_present item [] = None"
| "first_present item (k # ks) =
     (case map_of item k of None \<Rightarrow> first_present item ks | Some v \<Rightarrow> Some v)"

fun first_nonnull :: "dict \<Rightarrow> string list \<Rightarrow> json option" where
  "first_nonnull item [] = None"
| "first_nonnull item (k # ks) =
     (if dict_get item k = JNull then first_nonnull item ks else Some (dict_get item k))"

fun first_truthy :: "dict \<Rightarrow> string list \<Rightarrow> json" where
  "first_truthy item [] = JNull"
| "first_truthy item [k] = dict_get item k"
| "first_truthy item (k # ks) =
     (if truthy (dict_get item k) then dict_get item k else first_truthy item ks)"

text \<open>
  The record key as the specification words it, for a given reading \<open>pick\<close> of
  ``the first present of'': the transaction identifier among \<^verbatim>\<open>tx_hash\<close>,
  \<^verbatim>\<open>transaction_hash\<close>, \<^verbatim>\<open>hash\<close>, the index among \<^verbatim>\<open>index\<close>, \<^verbatim>\<open>log_index\<close> with the
  default \<^verbatim>\<open>"0"\<close>.
\<close>

definition stated_key :: "pylib \<Rightarrow> (dict \<Rightarrow> string list \<Rightarrow> json option) \<Rightarrow> dict \<Rightarrow> string" where
  "stated_key lib pick item =
     py_str lib (case pick item [''tx_hash'', ''transaction_hash'', ''hash''] of
                   None \<Rightarrow> JNull | Some v \<Rightarrow> v)
     @ ''_'' @
     py_str lib (case pick item [''index'', ''log_index''] of None \<Rightarrow> JStr ''0'' | Some v \<Rightarrow> v)"

text \<open>A transfer for the examples: a timestamp, a total and the hash of a sender.\<close>

definition example_transfer :: "string \<Rightarrow> json \<Rightarrow> string \<Rightarrow> dict" where
  "example_transfer ts amount sender =
     [(''timestamp'', JStr ts), (''total'', amount), (''from'', JObj [(''hash'', JStr sender)])]"



subsection \<open>The vote condition in the words of the specification\<close>










subsection \<open>Example vote logs\<close>



section \<open>Properties\<close>

subsection \<open>Size buckets\<close>

text \<open>
  C5. Every non-negative amount falls into exactly one of the five ranges: the order is
  between 1 and 5, each order is characterised by its half-open range, and each of the
  boundary values 0.001, 0.01, 0.1 and 1 belongs to the higher bucket.
\<close>

theorem size_bucket_partition:
  assumes "0 \<le> a"
  shows "snd (size_bucket a) \<in> {1, 2, 3, 4, 5}
    \<and> (snd (size_bucket a) = 1 \<longleftrightarrow> a < 0.001)
    \<and> (snd (size_bucket a) = 2 \<longleftrightarrow> 0.001 \<le> a \<and> a < 0.01)
    \<and> (snd (size_bucket a) = 3 \<longleftrightarrow> 0.01 \<le> a \<and> a < 0.1)
    \<and> (snd (size_bucket a) = 4 \<longleftrightarrow> 0.1 \<le> a \<and> a < 1)
    \<and> (snd (size_bucket a) = 5 \<longleftrightarrow> 1 \<le> a)
    \<and> size_bucket 0.001 = (''0.001 - 0.01'', 2)
    \<and> size_bucket 0.01 = (''0.01 - 0.1'', 3)
    \<and> size_bucket 0.1 = (''0.1 - 1'', 4)
    \<and> size_bucket 1 = (''1 and above'', 5)"
  using assms by (auto simp: size_bucket_def)

theorem size_bucket_partition_witness:
  "(0::real) \<le> 0.05 \<and> snd (size_bucket 0.05) = 3 \<and> size_bucket 0.1 = (''0.1 - 1'', 4)"
  using size_bucket_partition[of "0.05"] by simp


subsection \<open>The page scan and the fetch loop\<close>

lemma scan_page_snoc:
  "scan_page lib st (xs @ [x]) = scan_item lib (scan_page lib st xs) x"
  by (simp add: scan_page_def)

lemma known_at_snoc:
  "i \<le> length xs \<Longrightarrow> known_at lib ids (xs @ [x]) i = known_at lib ids xs i"
  by (simp add: known_at_def)

lemma known_at_length:
  "known_at lib ids xs (length xs) = ids \<union> get_unique_id lib ` set xs"
  by (simp add: known_at_def)

lemma page_emitted_snoc:
  "page_emitted lib ids (xs @ [x]) =
     page_emitted lib ids xs @
       (if get_unique_id lib x \<in> ids \<union> get_unique_id lib ` set xs then [] else [x])"
proof -
  have f: "filter (\<lambda>i. get_unique_id lib ((xs @ [x]) ! i) \<notin> known_at lib ids (xs @ [x]) i) [0..<length xs]
         = filter (\<lambda>i. get_unique_id lib (xs ! i) \<notin> known_at lib ids xs i) [0..<length xs]"
    by (rule filter_cong) (auto simp: nth_append known_at_snoc)
  have m: "map (\<lambda>i. (xs @ [x]) ! i) (filter (\<lambda>i. get_unique_id lib (xs ! i) \<notin> known_at lib ids xs i) [0..<length xs])
         = map (\<lambda>i. xs ! i) (filter (\<lambda>i. get_unique_id lib (xs ! i) \<notin> known_at lib ids xs i) [0..<length xs])"
    by (rule map_cong) (auto simp: nth_append)
  show ?thesis
    unfolding page_emitted_def
    by (simp add: f m known_at_snoc known_at_length)
qed

lemma page_caught_up_snoc:
  "page_caught_up lib ids (xs @ [x]) \<longleftrightarrow>
     page_caught_up lib ids xs \<or> get_unique_id lib x \<in> ids \<union> get_unique_id lib ` set xs"
proof -
  have "(\<exists>i\<in>{0..<length xs}. get_unique_id lib ((xs @ [x]) ! i) \<in> known_at lib ids (xs @ [x]) i)
      \<longleftrightarrow> (\<exists>i\<in>{0..<length xs}. get_unique_id lib (xs ! i) \<in> known_at lib ids xs i)"
    by (rule bex_cong) (auto simp: nth_append known_at_snoc)
  then show ?thesis
    unfolding page_caught_up_def
    by (auto simp add: list_ex_iff known_at_snoc known_at_length)
qed

lemma scan_page_eq:
  "scan_page lib (ids, new_items, stop) items =
     (ids \<union> get_unique_id lib ` set items, new_items @ page_emitted lib ids items,
      stop \<or> page_caught_up lib ids items)"
proof (induction items rule: rev_induct)
  case Nil
  show ?case by (simp add: scan_page_def page_emitted_def page_caught_up_def)
next
  case (snoc x xs)
  show ?case
    unfolding scan_page_snoc snoc.IH
    by (auto simp: scan_item_def page_emitted_snoc page_caught_up_snoc Let_def)
qed


lemma scan_page_Cons:
  "scan_page lib st (x # xs) = scan_page lib (scan_item lib st x) xs"
  by (simp add: scan_page_def)

lemma scan_page_append:
  "scan_page lib st (xs @ ys) = scan_page lib (scan_page lib st xs) ys"
  by (simp add: scan_page_def)

lemma scan_page_fresh:
  "distinct (map (get_unique_id lib) items) \<Longrightarrow>
   get_unique_id lib ` set items \<inter> ids = {} \<Longrightarrow>
   scan_page lib (ids, new_items, stop) items =
     (ids \<union> get_unique_id lib ` set items, new_items @ items, stop)"
proof (induction items arbitrary: ids new_items)
  case Nil
  show ?case by (simp add: scan_page_def)
next
  case (Cons x xs)
  have fresh: "get_unique_id lib x \<notin> ids" using Cons.prems(2) by auto
  have d: "distinct (map (get_unique_id lib) xs)" using Cons.prems(1) by simp
  have i: "get_unique_id lib ` set xs \<inter> insert (get_unique_id lib x) ids = {}"
    using Cons.prems by auto
  have "scan_page lib (ids, new_items, stop) (x # xs) =
        scan_page lib (insert (get_unique_id lib x) ids, new_items @ [x], stop) xs"
    using fresh by (simp add: scan_page_Cons scan_item_def)
  also have "\<dots> = (insert (get_unique_id lib x) ids \<union> get_unique_id lib ` set xs,
                     (new_items @ [x]) @ xs, stop)"
    by (rule Cons.IH[OF d i])
  finally show ?case by auto
qed

lemma fetch_loop_failed:
  "src params = Failed \<Longrightarrow>
   fetch_loop lib src params ids new_items reqs = Some (new_items, reqs @ [params])"
  by (subst fetch_loop.simps) simp

lemma fetch_loop_empty_page:
  "src params = Page [] nxt \<Longrightarrow>
   fetch_loop lib src params ids new_items reqs = Some (new_items, reqs @ [params])"
  by (subst fetch_loop.simps) simp

lemma fetch_loop_stop:
  "src params = Page items nxt \<Longrightarrow> items \<noteq> [] \<Longrightarrow>
   scan_page lib (ids, new_items, False) items = (ids', new_items', True) \<Longrightarrow>
   fetch_loop lib src params ids new_items reqs = Some (new_items', reqs @ [params])"
  by (subst fetch_loop.simps) simp

lemma fetch_loop_last:
  "src params = Page items nxt \<Longrightarrow> nxt = None \<or> nxt = Some [] \<Longrightarrow>
   scan_page lib (ids, new_items, False) items = (ids', new_items', stop) \<Longrightarrow>
   fetch_loop lib src params ids new_items reqs = Some (new_items', reqs @ [params])"
  by (subst fetch_loop.simps) (auto simp: scan_page_def)

lemma fetch_loop_next:
  "src params = Page items (Some np) \<Longrightarrow> items \<noteq> [] \<Longrightarrow> np \<noteq> [] \<Longrightarrow>
   scan_page lib (ids, new_items, False) items = (ids', new_items', False) \<Longrightarrow>
   fetch_loop lib src params ids new_items reqs =
     fetch_loop lib src (dict_update params np) ids' new_items' (reqs @ [params])"
  by (subst fetch_loop.simps) simp

lemma loop_steps_fetch_loop:
  "loop_steps lib src s t \<Longrightarrow>
   (case s of (p, i, n, r) \<Rightarrow> fetch_loop lib src p i n r) =
   (case t of (p, i, n, r) \<Rightarrow> fetch_loop lib src p i n r)"
proof (induction rule: loop_steps.induct)
  case start
  show ?case by simp
next
  case (page params ids new_items reqs items np ids' new_items')
  then show ?case by (simp add: fetch_loop_next)
qed

lemma serves_fetch_loop:
  "serves src params pages \<Longrightarrow> \<forall>pg\<in>set pages. pg \<noteq> [] \<Longrightarrow>
   distinct (map (get_unique_id lib) (concat pages)) \<Longrightarrow>
   get_unique_id lib ` set (concat pages) \<inter> ids = {} \<Longrightarrow>
   map_option fst (fetch_loop lib src params ids new_items reqs) = Some (new_items @ concat pages)"
proof (induction pages arbitrary: params ids new_items reqs)
  case Nil
  then obtain nxt where "src params = Page [] nxt"
    by (auto split: response.splits)
  then show ?case by (simp add: fetch_loop_empty_page)
next
  case (Cons items rest)
  from Cons.prems(1) obtain nxt where src: "src params = Page items nxt"
    and nx: "case nxt of None \<Rightarrow> rest = []
             | Some np \<Rightarrow> if np = [] then rest = [] else serves src (dict_update params np) rest"
    by (auto split: response.splits)
  have ne: "items \<noteq> []" using Cons.prems(2) by simp
  have d: "distinct (map (get_unique_id lib) items)" using Cons.prems(3) by simp
  have i: "get_unique_id lib ` set items \<inter> ids = {}" using Cons.prems(4) by auto
  have sc: "scan_page lib (ids, new_items, False) items =
              (ids \<union> get_unique_id lib ` set items, new_items @ items, False)"
    by (rule scan_page_fresh[OF d i])
  show ?case
  proof (cases "nxt = None \<or> nxt = Some []")
    case True
    then have "rest = []" using nx by auto
    then show ?thesis using fetch_loop_last[where src=src and params=params, OF src True sc] by simp
  next
    case False
    then obtain np where np: "nxt = Some np" "np \<noteq> []" by (cases nxt) auto
    have sv: "serves src (dict_update params np) rest" using nx np by simp
    have d': "distinct (map (get_unique_id lib) (concat rest))" using Cons.prems(3) by simp
    have i': "get_unique_id lib ` set (concat rest) \<inter> (ids \<union> get_unique_id lib ` set items) = {}"
      using Cons.prems(3,4) by auto
    have ne': "\<forall>pg\<in>set rest. pg \<noteq> []" using Cons.prems(2) by simp
    have "fetch_loop lib src params ids new_items reqs =
          fetch_loop lib src (dict_update params np) (ids \<union> get_unique_id lib ` set items)
            (new_items @ items) (reqs @ [params])"
      using fetch_loop_next[where src=src and params=params, OF _ ne np(2) sc] src np(1) by simp
    then show ?thesis
      using Cons.IH[OF sv ne' d' i', of "new_items @ items" "reqs @ [params]"] by simp
  qed
qed

lemma serves_second_page:
  assumes sv: "serves src params (p1 # p2 # rest)"
  obtains np nxt2 where "src params = Page p1 (Some np)" "np \<noteq> []"
    "src (dict_update params np) = Page p2 nxt2"
proof -
  from sv obtain nxt where src: "src params = Page p1 nxt"
    and nx: "case nxt of None \<Rightarrow> p2 # rest = []
             | Some np \<Rightarrow> if np = [] then p2 # rest = [] else serves src (dict_update params np) (p2 # rest)"
    by (auto split: response.splits)
  from nx obtain np where np: "nxt = Some np" "np \<noteq> []" "serves src (dict_update params np) (p2 # rest)"
    by (cases nxt) (auto split: if_splits)
  from np(3) obtain nxt2 where "src (dict_update params np) = Page p2 nxt2"
    by (auto split: response.splits)
  with src np show ?thesis using that by simp
qed

lemma scan_page_known_middle:
  assumes d: "distinct (map (get_unique_id lib) (pre @ x # post))"
    and fr: "get_unique_id lib ` (set pre \<union> set post) \<inter> ids = {}"
    and kn: "get_unique_id lib x \<in> ids"
  shows "scan_page lib (ids, new_items, stop) (pre @ x # post) =
           (ids \<union> get_unique_id lib ` (set pre \<union> set post), new_items @ pre @ post, True)"
proof -
  have d1: "distinct (map (get_unique_id lib) pre)" using d by simp
  have i1: "get_unique_id lib ` set pre \<inter> ids = {}" using fr by auto
  have s1: "scan_page lib (ids, new_items, stop) pre =
              (ids \<union> get_unique_id lib ` set pre, new_items @ pre, stop)"
    by (rule scan_page_fresh[OF d1 i1])
  have s2: "scan_item lib (ids \<union> get_unique_id lib ` set pre, new_items @ pre, stop) x =
              (ids \<union> get_unique_id lib ` set pre, new_items @ pre, True)"
    using kn by (simp add: scan_item_def)
  have d3: "distinct (map (get_unique_id lib) post)" using d by simp
  have i3: "get_unique_id lib ` set post \<inter> (ids \<union> get_unique_id lib ` set pre) = {}"
    using d fr by auto
  have s3: "scan_page lib (ids \<union> get_unique_id lib ` set pre, new_items @ pre, True) post =
              (ids \<union> get_unique_id lib ` set pre \<union> get_unique_id lib ` set post,
               (new_items @ pre) @ post, True)"
    by (rule scan_page_fresh[OF d3 i3])
  show ?thesis
    by (simp add: scan_page_append scan_page_Cons s1 s2 s3 image_Un Un_assoc)
qed

lemma fetch_known_on_second_page:
  assumes sv: "serves src params (p1 # p2 # rest)"
    and ne: "p1 \<noteq> []"
    and d: "distinct (map (get_unique_id lib) (p1 @ p2))"
    and len: "2 < length p2"
    and ids: "ids = {get_unique_id lib (p2 ! 2)}"
  shows "map_option (\<lambda>(n, r). (n, length r)) (fetch_loop lib src params ids [] []) =
           Some (p1 @ take 2 p2 @ drop 3 p2, 2)"
proof -
  from sv obtain np nxt2 where src1: "src params = Page p1 (Some np)" and np: "np \<noteq> []"
    and src2: "src (dict_update params np) = Page p2 nxt2"
    by (rule serves_second_page)
  have p2: "p2 = take 2 p2 @ p2 ! 2 # drop 3 p2"
    using id_take_nth_drop[OF len] by simp
  have x2: "p2 ! 2 \<in> set p2" using len by simp
  have d1: "distinct (map (get_unique_id lib) p1)" using d by simp
  have i1: "get_unique_id lib ` set p1 \<inter> ids = {}"
    using d x2 ids by auto
  have sc1: "scan_page lib (ids, [], False) p1 = (ids \<union> get_unique_id lib ` set p1, [] @ p1, False)"
    by (rule scan_page_fresh[OF d1 i1])
  have step1: "fetch_loop lib src params ids [] [] =
                 fetch_loop lib src (dict_update params np) (ids \<union> get_unique_id lib ` set p1) p1 [params]"
    using fetch_loop_next[where src=src and params=params and reqs="[]", OF src1 ne np sc1] by simp
  have d2: "distinct (map (get_unique_id lib) (take 2 p2 @ p2 ! 2 # drop 3 p2))"
    using d p2 by simp
  have dp: "distinct (map (get_unique_id lib) p1 @ map (get_unique_id lib) (take 2 p2 @ p2 ! 2 # drop 3 p2))"
    using d p2 by simp
  have fr2: "get_unique_id lib ` (set (take 2 p2) \<union> set (drop 3 p2)) \<inter> (ids \<union> get_unique_id lib ` set p1) = {}"
    using dp d2 ids by auto
  have kn: "get_unique_id lib (p2 ! 2) \<in> ids \<union> get_unique_id lib ` set p1" using ids by simp
  have sc2': "scan_page lib (ids \<union> get_unique_id lib ` set p1, p1, False) (take 2 p2 @ p2 ! 2 # drop 3 p2) =
               (ids \<union> get_unique_id lib ` set p1 \<union> get_unique_id lib ` (set (take 2 p2) \<union> set (drop 3 p2)),
                p1 @ take 2 p2 @ drop 3 p2, True)"
    by (rule scan_page_known_middle[OF d2 fr2 kn])
  have sc2: "scan_page lib (ids \<union> get_unique_id lib ` set p1, p1, False) p2 =
               (ids \<union> get_unique_id lib ` set p1 \<union> get_unique_id lib ` (set (take 2 p2) \<union> set (drop 3 p2)),
                p1 @ take 2 p2 @ drop 3 p2, True)"
    using sc2' p2 by simp
  have ne2: "p2 \<noteq> []" using len by auto
  have "fetch_loop lib src (dict_update params np) (ids \<union> get_unique_id lib ` set p1) p1 [params] =
          Some (p1 @ take 2 p2 @ drop 3 p2, [params] @ [dict_update params np])"
    by (rule fetch_loop_stop[where src=src, OF src2 ne2 sc2])
  with step1 show ?thesis by simp
qed

lemma fetch_uniform_pages:
  assumes sv: "serves src params pages"
    and len: "\<forall>pg\<in>set pages. length pg = K"
    and d: "distinct (map (get_unique_id lib) (concat pages))"
  shows "fetch_incremental lib src params [] = Some (concat pages)"
proof (cases "K = 0")
  case True
  then have e: "\<forall>pg\<in>set pages. pg = []" using len by simp
  then have c: "concat pages = []" by simp
  from sv obtain nxt where "src params = Page [] nxt"
    using e by (cases pages) (auto split: response.splits)
  then show ?thesis
    by (simp add: fetch_incremental_def fetch_trace_def fetch_loop_empty_page c)
next
  case False
  then have ne: "\<forall>pg\<in>set pages. pg \<noteq> []" using len by auto
  show ?thesis
    using serves_fetch_loop[OF sv ne d, of "{}" "[]" "[]"]
    by (simp add: fetch_incremental_def fetch_trace_def)
qed

lemma length_concat_uniform:
  "\<forall>pg\<in>set pages. length pg = K \<Longrightarrow> length (concat pages) = length pages * K"
  by (induction pages) auto

lemma example_item_key:
  "get_unique_id lib (example_item h i) = (if h = [] then ''None'' else h) @ ''_'' @ string_of_int i"
  by (simp add: get_unique_id_def example_item_def dict_get_def dict_get_default_def py_or_def)

lemma example_source_serves:
  "serves (paged_source example_pages 2) [] example_pages"
  by (simp add: paged_source_def example_pages_def dict_get_def dict_update_def)

lemma example_pages_distinct:
  "distinct (map (get_unique_id lib) (concat example_pages))"
  by (simp add: example_pages_def example_item_key string_of_int_def digit_char_def)

lemma example_first_request:
  "0 < n \<Longrightarrow>
   paged_source example_pages n [] = Page (example_pages ! 0) (Some [(''page'', JInt 1)])"
  by (simp add: paged_source_def example_pages_def dict_get_def)

lemma example_known_fetch:
  "map_option (\<lambda>(n, r). (n, length r))
     (fetch_trace example_lib (paged_source example_pages 2) [] [example_item ''0xb'' 2]) =
   Some ([example_item ''0xa'' 0, example_item ''0xa'' 1, example_item ''0xa'' 2, example_item ''0xa'' 3,
          example_item ''0xb'' 0, example_item ''0xb'' 1, example_item ''0xb'' 3], 2)"
proof -
  have sv: "serves (paged_source example_pages 2) [] (example_pages ! 0 # example_pages ! 1 # [])"
    using example_source_serves by (simp add: example_pages_def)
  have ne: "example_pages ! 0 \<noteq> []" by (simp add: example_pages_def)
  have d: "distinct (map (get_unique_id example_lib) (example_pages ! 0 @ example_pages ! 1))"
    using example_pages_distinct[of example_lib] by (simp add: example_pages_def)
  have len: "2 < length (example_pages ! 1)" by (simp add: example_pages_def)
  have ids: "set (map (get_unique_id example_lib) [example_item ''0xb'' 2]) =
               {get_unique_id example_lib (example_pages ! 1 ! 2)}"
    by (simp add: example_pages_def)
  show ?thesis
    using fetch_known_on_second_page[OF sv ne d len ids]
    by (simp add: fetch_trace_def example_pages_def)
qed

text \<open>
  C1. A page is scanned in order by \<open>scan_page\<close>: an item whose identifier is known when it
  is reached marks the fetch as caught up, and the scan goes on over the rest of the
  page; every item whose identifier is not known when it is reached is emitted and its
  identifier becomes known. When the page marked the fetch as caught up, the loop
  returns after this page: the request of the page is the last one it makes.
\<close>

theorem page_scan_caught_up:
  assumes "src params = Page items nxt" and "items \<noteq> []"
  shows "scan_page lib (ids, new_items, False) items =
           (ids \<union> get_unique_id lib ` set items, new_items @ page_emitted lib ids items,
            page_caught_up lib ids items)
       \<and> (page_caught_up lib ids items \<longrightarrow>
            fetch_loop lib src params ids new_items reqs =
              Some (new_items @ page_emitted lib ids items, reqs @ [params]))"
proof -
  have sc: "scan_page lib (ids, new_items, False) items =
           (ids \<union> get_unique_id lib ` set items, new_items @ page_emitted lib ids items,
            page_caught_up lib ids items)"
    by (simp add: scan_page_eq)
  show ?thesis
    using sc fetch_loop_stop[where src=src and params=params, OF assms(1,2)] by auto
qed

theorem page_scan_caught_up_witness:
  "paged_source example_pages 2 [] = Page (example_pages ! 0) (Some [(''page'', JInt 1)])
   \<and> example_pages ! 0 \<noteq> []
   \<and> page_caught_up example_lib {''0xa_1''} (example_pages ! 0)
   \<and> fetch_loop example_lib (paged_source example_pages 2) [] {''0xa_1''} [] [] =
       Some ([example_item ''0xa'' 0, example_item ''0xa'' 2, example_item ''0xa'' 3], [[]])"
proof -
  have src: "paged_source example_pages 2 [] = Page (example_pages ! 0) (Some [(''page'', JInt 1)])"
    by (simp add: example_first_request)
  have ne: "example_pages ! 0 \<noteq> []" by (simp add: example_pages_def)
  have cu: "page_caught_up example_lib {''0xa_1''} (example_pages ! 0)"
    by (simp add: page_caught_up_def known_at_def example_pages_def example_item_key
        string_of_int_def digit_char_def)
  have em: "page_emitted example_lib {''0xa_1''} (example_pages ! 0) =
              [example_item ''0xa'' 0, example_item ''0xa'' 2, example_item ''0xa'' 3]"
    by (simp add: page_emitted_def known_at_def example_pages_def example_item_key
        string_of_int_def digit_char_def)
  show ?thesis
    using page_scan_caught_up[where src="paged_source example_pages 2" and params="[]"
        and lib=example_lib and ids="{''0xa_1''}" and new_items="[]" and reqs="[]", OF src ne]
      src ne cu em
    by simp
qed

text \<open>
  C8. When a page request fails after some pages were processed, the loop ends at once:
  the failed request is the last of the trace, it is made once, and the result is the
  new items accumulated from the pages before it.
\<close>

theorem fetch_error_aborts:
  assumes "loop_steps lib src (params0, set (map (get_unique_id lib) existing_items), [], [])
             (params, ids, new_items, reqs)"
    and "src params = Failed"
  shows "fetch_trace lib src params0 existing_items = Some (new_items, reqs @ [params])
       \<and> fetch_incremental lib src params0 existing_items = Some new_items"
  using loop_steps_fetch_loop[OF assms(1)] fetch_loop_failed[where src=src, OF assms(2)]
  by (simp add: fetch_trace_def fetch_incremental_def)

theorem fetch_error_aborts_witness:
  "paged_source example_pages 1 [(''page'', JInt 1)] = Failed
   \<and> fetch_trace example_lib (paged_source example_pages 1) [] [] =
       Some (example_pages ! 0, [[], [(''page'', JInt 1)]])
   \<and> fetch_incremental example_lib (paged_source example_pages 1) [] [] = Some (example_pages ! 0)"
proof -
  have f: "paged_source example_pages 1 [(''page'', JInt 1)] = Failed"
    by (simp add: paged_source_def dict_get_def)
  have src: "paged_source example_pages 1 [] = Page (example_pages ! 0) (Some [(''page'', JInt 1)])"
    by (simp add: example_first_request)
  have ne: "example_pages ! 0 \<noteq> []" by (simp add: example_pages_def)
  have d: "distinct (map (get_unique_id example_lib) (example_pages ! 0))"
    by (simp add: example_pages_def example_item_key string_of_int_def digit_char_def)
  have sc: "scan_page example_lib ({}, [], False) (example_pages ! 0) =
              ({} \<union> get_unique_id example_lib ` set (example_pages ! 0), [] @ example_pages ! 0, False)"
    by (rule scan_page_fresh[OF d]) simp
  have st: "loop_steps example_lib (paged_source example_pages 1)
              ([], set (map (get_unique_id example_lib) []), [], [])
              (dict_update [] [(''page'', JInt 1)],
               {} \<union> get_unique_id example_lib ` set (example_pages ! 0), [] @ example_pages ! 0, [] @ [[]])"
    by (rule loop_steps.page[where src="paged_source example_pages 1" and params="[]"
          and reqs="[]", OF _ src ne _ sc]) (simp_all add: loop_steps.start)
  have st': "loop_steps example_lib (paged_source example_pages 1)
              ([], set (map (get_unique_id example_lib) []), [], [])
              ([(''page'', JInt 1)],
               {} \<union> get_unique_id example_lib ` set (example_pages ! 0), [] @ example_pages ! 0, [] @ [[]])"
    using st by (simp add: dict_update_def)
  show ?thesis
    using fetch_error_aborts[where src="paged_source example_pages 1"
        and params="[(''page'', JInt 1)]", OF st' f] f
    by simp
qed

text \<open>
  C2, as the code has it. For a source presenting pages of \<open>K\<close> items each with pairwise
  distinct identifiers, a fetch with no known item returns all items in their order.
  When the only known identifier is that of the third item of the second page, the fetch
  returns the first page and the second page without that item, the items after it
  included, and makes two requests.
\<close>

theorem fetch_pages_in_order:
  assumes "serves src params pages"
    and "\<forall>pg\<in>set pages. length pg = K"
    and "distinct (map (get_unique_id lib) (concat pages))"
  shows "fetch_incremental lib src params [] = Some (concat pages)
       \<and> length (concat pages) = length pages * K
       \<and> (2 \<le> length pages \<and> 3 \<le> K
            \<and> get_unique_id lib ` set existing_items = {get_unique_id lib (pages ! 1 ! 2)} \<longrightarrow>
          map_option (\<lambda>(n, r). (n, length r)) (fetch_trace lib src params existing_items) =
            Some (pages ! 0 @ take 2 (pages ! 1) @ drop 3 (pages ! 1), 2))"
proof (intro conjI impI)
  show "fetch_incremental lib src params [] = Some (concat pages)"
    by (rule fetch_uniform_pages[OF assms])
  show "length (concat pages) = length pages * K"
    by (rule length_concat_uniform[OF assms(2)])
next
  assume h: "2 \<le> length pages \<and> 3 \<le> K
            \<and> get_unique_id lib ` set existing_items = {get_unique_id lib (pages ! 1 ! 2)}"
  then obtain p1 p2 rest where pg: "pages = p1 # p2 # rest"
    by (cases pages; cases "tl pages") auto
  have l1: "length p1 = K" and l2: "length p2 = K" using assms(2) pg by auto
  have ne: "p1 \<noteq> []" using l1 h by auto
  have len: "2 < length p2" using l2 h by auto
  have d: "distinct (map (get_unique_id lib) (p1 @ p2))" using assms(3) pg by auto
  have ids: "set (map (get_unique_id lib) existing_items) = {get_unique_id lib (p2 ! 2)}"
    using h pg by simp
  show "map_option (\<lambda>(n, r). (n, length r)) (fetch_trace lib src params existing_items) =
            Some (pages ! 0 @ take 2 (pages ! 1) @ drop 3 (pages ! 1), 2)"
    using fetch_known_on_second_page[OF assms(1)[unfolded pg] ne d len ids]
    by (simp add: fetch_trace_def pg)
qed

theorem fetch_pages_in_order_witness:
  "serves (paged_source example_pages 2) [] example_pages
   \<and> fetch_incremental example_lib (paged_source example_pages 2) [] [] = Some (concat example_pages)
   \<and> length (concat example_pages) = 8
   \<and> map_option (\<lambda>(n, r). (n, length r))
        (fetch_trace example_lib (paged_source example_pages 2) [] [example_item ''0xb'' 2]) =
      Some (example_pages ! 0 @ take 2 (example_pages ! 1) @ drop 3 (example_pages ! 1), 2)"
proof -
  have l: "\<forall>pg\<in>set example_pages. length pg = 4" by (simp add: example_pages_def)
  have n: "2 \<le> length example_pages \<and> (3::nat) \<le> 4
            \<and> get_unique_id example_lib ` set [example_item ''0xb'' 2] =
                {get_unique_id example_lib (example_pages ! 1 ! 2)}"
    by (simp add: example_pages_def)
  have len: "length example_pages = 2" by (simp add: example_pages_def)
  show ?thesis
    using fetch_pages_in_order[OF example_source_serves l example_pages_distinct,
        of example_lib "[example_item ''0xb'' 2]"] n example_source_serves len
    by simp
qed

text \<open>
  C2 as stated fails: with two pages of four items and the third item of the second page
  known, the fetch also returns the fourth item of the second page, which does not
  precede the known item.
\<close>

theorem fetch_known_item_counterexample:
  "serves (paged_source example_pages 2) [] example_pages
   \<and> distinct (map (get_unique_id example_lib) (concat example_pages))
   \<and> length (example_pages ! 0) = 4 \<and> length (example_pages ! 1) = 4
   \<and> get_unique_id example_lib ` set [example_item ''0xb'' 2] =
       {get_unique_id example_lib (example_pages ! 1 ! 2)}
   \<and> fetch_incremental example_lib (paged_source example_pages 2) [] [example_item ''0xb'' 2] =
       Some [example_item ''0xa'' 0, example_item ''0xa'' 1, example_item ''0xa'' 2, example_item ''0xa'' 3,
             example_item ''0xb'' 0, example_item ''0xb'' 1, example_item ''0xb'' 3]
   \<and> fetch_incremental example_lib (paged_source example_pages 2) [] [example_item ''0xb'' 2] \<noteq>
       Some (example_pages ! 0 @ take 2 (example_pages ! 1))"
proof -
  have f: "fetch_incremental example_lib (paged_source example_pages 2) [] [example_item ''0xb'' 2] =
       Some [example_item ''0xa'' 0, example_item ''0xa'' 1, example_item ''0xa'' 2, example_item ''0xa'' 3,
             example_item ''0xb'' 0, example_item ''0xb'' 1, example_item ''0xb'' 3]"
    using example_known_fetch
    by (cases "fetch_trace example_lib (paged_source example_pages 2) [] [example_item ''0xb'' 2]")
       (auto simp: fetch_incremental_def)
  have g: "example_pages ! 0 @ take 2 (example_pages ! 1) =
             [example_item ''0xa'' 0, example_item ''0xa'' 1, example_item ''0xa'' 2, example_item ''0xa'' 3,
              example_item ''0xb'' 0, example_item ''0xb'' 1]"
    by (simp add: example_pages_def)
  show ?thesis
    using example_source_serves example_pages_distinct[of example_lib]
    by (simp add: f g) (simp add: example_pages_def)
qed

subsection \<open>Record identity\<close>

text \<open>
  C7, as the code has it. \<open>get_unique_id\<close> is total and joins two parts with an
  underscore. The transaction identifier is the first truthy value among \<^verbatim>\<open>tx_hash\<close>,
  \<^verbatim>\<open>transaction_hash\<close> and \<^verbatim>\<open>hash\<close> (a value that is \<^verbatim>\<open>None\<close>, empty or zero is passed
  over), and the value of \<^verbatim>\<open>hash\<close> when none is truthy. The index is the value of the
  first of the keys \<^verbatim>\<open>index\<close>, \<^verbatim>\<open>log_index\<close> that the item has, whatever the value, and
  \<^verbatim>\<open>"0"\<close> when it has neither. With no identifier and no index key the key is
  \<^verbatim>\<open>None_0\<close>.
\<close>

theorem get_unique_id_key:
  "get_unique_id lib item =
     py_str lib (first_truthy item [''tx_hash'', ''transaction_hash'', ''hash''])
     @ ''_'' @
     py_str lib (case first_present item [''index'', ''log_index''] of
                   None \<Rightarrow> JStr ''0'' | Some v \<Rightarrow> v)
   \<and> (first_truthy item [''tx_hash'', ''transaction_hash'', ''hash''] = JNull
        \<and> first_present item [''index'', ''log_index''] = None \<longrightarrow>
      get_unique_id lib item = ''None_0'')
   \<and> get_unique_id lib [] = ''None_0''"
  by (auto simp: get_unique_id_def py_or_def dict_get_def dict_get_default_def
      split: option.splits)

theorem get_unique_id_key_witness:
  "get_unique_id example_lib [(''transaction_hash'', JStr ''0xab''), (''index'', JInt 7)] = ''0xab_7''
   \<and> get_unique_id example_lib [(''block'', JInt 1)] = ''None_0''"
  using get_unique_id_key[of example_lib "[(''transaction_hash'', JStr ''0xab''), (''index'', JInt 7)]"]
    get_unique_id_key[of example_lib "[(''block'', JInt 1)]"]
  by (simp add: dict_get_def string_of_int_def digit_char_def)

text \<open>
  C7 as stated fails under both readings of ``first present''. If a field is present
  when the item has the key, an item with \<^verbatim>\<open>tx_hash\<close> set to \<^verbatim>\<open>None\<close> gets its identifier
  from \<^verbatim>\<open>transaction_hash\<close>. If a field is present when its value is not \<^verbatim>\<open>None\<close>, an
  item with \<^verbatim>\<open>index\<close> set to \<^verbatim>\<open>None\<close> gets the index \<^verbatim>\<open>None\<close>, not its \<^verbatim>\<open>log_index\<close>.
\<close>

theorem get_unique_id_counterexample:
  "get_unique_id example_lib [(''tx_hash'', JNull), (''transaction_hash'', JStr ''0xab'')] = ''0xab_0''
   \<and> stated_key example_lib first_present
         [(''tx_hash'', JNull), (''transaction_hash'', JStr ''0xab'')] = ''None_0''
   \<and> get_unique_id example_lib
         [(''tx_hash'', JStr ''0xab''), (''index'', JNull), (''log_index'', JInt 5)] = ''0xab_None''
   \<and> stated_key example_lib first_nonnull
         [(''tx_hash'', JStr ''0xab''), (''index'', JNull), (''log_index'', JInt 5)] = ''0xab_5''"
  by (simp add: get_unique_id_def stated_key_def py_or_def dict_get_def dict_get_default_def
      string_of_int_def digit_char_def)

subsection \<open>Normalising locks\<close>

lemma process_locks_append:
  "process_locks lib (xs @ ys) = process_locks lib xs @ process_locks lib ys"
  by (simp add: process_locks_def map_filter_def)

lemma process_locks_Cons:
  "process_locks lib (x # xs) =
     (case parse_lock lib x of None \<Rightarrow> process_locks lib xs | Some r \<Rightarrow> r # process_locks lib xs)"
  by (simp add: process_locks_def split: option.splits)

lemma parse_lock_self_transfer:
  "lock_sender lib tx = JStr s \<Longrightarrow> py_lower s = py_lower CONTRACT_ADDRESS \<Longrightarrow>
   parse_lock lib tx = None"
  by (simp add: parse_lock_def Let_def split: option.splits)

lemma parse_lock_no_amount:
  assumes ts: "truthy (dict_get tx ''timestamp'')"
    and dt: "parse_iso lib (dict_get tx ''timestamp'') = Some dt"
    and sn: "lock_sender lib tx = JStr s"
    and ns: "py_lower s \<noteq> py_lower CONTRACT_ADDRESS"
    and am: "dict_get tx ''total'' = JNull
             \<or> (\<exists>d. dict_get tx ''total'' = JObj d \<and> dict_get d ''value'' = JNull)"
  shows "parse_lock lib tx =
           Some \<lparr>l_date = date_part dt, l_ts = dt, l_amount = 0, l_type = ''lock'', l_sender = s,
                 l_cat = ''< 0.001'', l_order = 1\<rparr>"
proof -
  have raw: "lock_raw_val tx = JNull"
    using am by (auto simp: lock_raw_val_def)
  have fl: "py_float lib (py_or (lock_raw_val tx) (JInt 0)) = Some 0"
    by (simp add: raw py_or_def float_of_int_def)
  show ?thesis
    using ts dt sn ns by (simp add: parse_lock_def fl size_bucket_def)
qed

subsection \<open>The daily table\<close>

lemma map_of_tabulate:
  "map_of (map (\<lambda>d. (d, f d)) ds) d = (if d \<in> set ds then Some (f d) else None)"
  by (induction ds) auto

lemma joined_daily_locks:
  "joined (daily_locks ls) d =
     (sum_list (map l_amount (filter (\<lambda>r. l_date r = d) ls)),
      length (filter (\<lambda>r. l_date r = d) ls))"
proof (cases "d \<in> l_date ` set ls")
  case True
  then show ?thesis by (simp add: joined_def daily_locks_def map_of_tabulate)
next
  case False
  then have "filter (\<lambda>r. l_date r = d) ls = []" by (auto simp: filter_empty_conv)
  with False show ?thesis by (simp add: joined_def daily_locks_def map_of_tabulate)
qed

lemma joined_daily_votes:
  "joined (daily_votes vs) d =
     (sum_list (map v_voting_power (filter (\<lambda>r. v_date r = d) vs)),
      length (filter (\<lambda>r. v_date r = d) vs))"
proof (cases "d \<in> v_date ` set vs")
  case True
  then show ?thesis by (simp add: joined_def daily_votes_def map_of_tabulate)
next
  case False
  then have "filter (\<lambda>r. v_date r = d) vs = []" by (auto simp: filter_empty_conv)
  with False show ?thesis by (simp add: joined_def daily_votes_def map_of_tabulate)
qed

lemma set_all_dates:
  "set (all_dates (daily_locks ls) (daily_votes vs)) = l_date ` set ls \<union> v_date ` set vs"
  by (simp add: all_dates_def daily_locks_def daily_votes_def comp_def)



lemma length_cumsum_from: "length (cumsum_from acc xs) = length xs"
  by (induction xs arbitrary: acc) auto

lemma nth_cumsum_from:
  "i < length xs \<Longrightarrow> cumsum_from acc xs ! i = acc + sum_list (take (Suc i) xs)"
proof (induction xs arbitrary: acc i)
  case Nil
  then show ?case by simp
next
  case (Cons x xs)
  show ?case
  proof (cases i)
    case 0
    then show ?thesis by simp
  next
    case (Suc j)
    then have "j < length xs" using Cons.prems by simp
    then show ?thesis using Cons.IH[of j "acc + x"] Suc by simp
  qed
qed

lemma length_df_main:
  "length (df_main ls vs) = length (all_dates (daily_locks ls) (daily_votes vs))"
  by (simp add: df_main_def Let_def cumsum_def length_cumsum_from)

lemma nth_df_main:
  assumes "i < length (all_dates (daily_locks ls) (daily_votes vs))"
  shows "df_main ls vs ! i =
    (let dates = all_dates (daily_locks ls) (daily_votes vs); d = dates ! i in
     \<lparr>r_date = d, r_amount = fst (joined (daily_locks ls) d),
      r_lock_count = snd (joined (daily_locks ls) d),
      r_voting_power = fst (joined (daily_votes vs) d),
      r_vote_count = snd (joined (daily_votes vs) d),
      r_cumulative_locks =
        sum_list (take (Suc i) (map (\<lambda>d. fst (joined (daily_locks ls) d)) dates)),
      r_cumulative_votes =
        sum_list (take (Suc i) (map (\<lambda>d. fst (joined (daily_votes vs) d)) dates))\<rparr>)"
  using assms
  by (simp add: df_main_def Let_def cumsum_def length_cumsum_from nth_cumsum_from)

lemma map_r_date_df_main:
  "map r_date (df_main ls vs) = all_dates (daily_locks ls) (daily_votes vs)"
  by (rule nth_equalityI) (simp_all add: length_df_main nth_df_main Let_def)




lemma df_main_row:
  assumes "row \<in> set (df_main ls vs)"
  shows "r_amount row = sum_list (map l_amount (filter (\<lambda>r. l_date r = r_date row) ls))
       \<and> r_lock_count row = length (filter (\<lambda>r. l_date r = r_date row) ls)
       \<and> r_voting_power row = sum_list (map v_voting_power (filter (\<lambda>r. v_date r = r_date row) vs))
       \<and> r_vote_count row = length (filter (\<lambda>r. v_date r = r_date row) vs)"
proof -
  from assms obtain i where i: "i < length (df_main ls vs)" and r: "df_main ls vs ! i = row"
    by (auto simp: in_set_conv_nth)
  have i': "i < length (all_dates (daily_locks ls) (daily_votes vs))"
    using i by (simp add: length_df_main)
  show ?thesis
    using nth_df_main[OF i'] r
    by (auto simp: Let_def joined_daily_locks joined_daily_votes)
qed





subsection \<open>Locks in the aggregates\<close>

lemma df_main_has_date:
  assumes "r \<in> set ls"
  shows "\<exists>row\<in>set (df_main ls vs). r_date row = l_date r"
proof -
  have "l_date r \<in> set (map r_date (df_main ls vs))"
    using assms by (simp only: map_r_date_df_main set_all_dates) simp
  then show ?thesis by auto
qed

lemma dist_df_has_bucket:
  assumes "r \<in> set ls"
  shows "\<exists>b\<in>set (dist_df lib ls). b_cat b = l_cat r \<and> b_order b = l_order r
           \<and> b_tx_count b = length (filter (\<lambda>x. l_cat x = l_cat r \<and> l_order x = l_order r) ls)"
proof -
  have k: "(l_cat r, l_order r) \<in> set (sort_key snd (remdups (map (\<lambda>r. (l_cat r, l_order r)) ls)))"
    using assms by force
  show ?thesis
    unfolding dist_df_def
    by (rule bexI[OF _ imageI[OF k, folded set_map]]) (simp add: Let_def)
qed

lemma parse_data_cong:
  "process_locks lib locks = process_locks lib locks' \<Longrightarrow>
   process_votes lib votes = process_votes lib votes' \<Longrightarrow>
   parse_data lib locks votes = parse_data lib locks' votes'"
  by (simp add: parse_data_def)

lemma example_timestamp:
  "strptime example_lib (strip_timestamp ''2024-03-05T10:00:00Z'') =
     Some (Datetime (2024, 3, 5) (10, 0, 0))"
  by (simp add: example_lib_def strip_timestamp_def example_strptime_def decimal_value_def
      hex_digit_def days_in_month_def leap_year_def)

lemma example_sender:
  "lock_sender lib (example_transfer ts a sender) = JStr sender"
  by (simp add: lock_sender_def example_transfer_def dict_get_default_def)

lemma example_self_lower:
  "py_lower ''0x3d4b1b884a7a1e59fe8589a3296ec8f8cbb6f279'' = py_lower CONTRACT_ADDRESS"
  by (simp add: py_lower_def lower_char_def CONTRACT_ADDRESS_def)

lemma example_other_lower:
  "py_lower ''0xab'' \<noteq> py_lower CONTRACT_ADDRESS"
  by (simp add: py_lower_def lower_char_def CONTRACT_ADDRESS_def)

lemma example_parse_lock:
  "parse_lock example_lib
     (example_transfer ''2024-03-05T10:00:00Z'' (JObj [(''value'', JStr ''5000000000000000000'')]) ''0xab'') =
   Some \<lparr>l_date = (2024, 3, 5), l_ts = Datetime (2024, 3, 5) (10, 0, 0), l_amount = 5,
         l_type = ''lock'', l_sender = ''0xab'', l_cat = ''1 and above'', l_order = 5\<rparr>"
proof -
  have f: "float_of_string example_lib ''5000000000000000000'' = Some 5000000000000000000"
    by (simp add: example_lib_def decimal_value_def hex_digit_def)
  have t: "dict_get (example_transfer ''2024-03-05T10:00:00Z'' (JObj [(''value'', JStr ''5000000000000000000'')]) ''0xab'') ''timestamp''
             = JStr ''2024-03-05T10:00:00Z''"
    by (simp add: example_transfer_def dict_get_def)
  have r: "lock_raw_val (example_transfer ''2024-03-05T10:00:00Z'' (JObj [(''value'', JStr ''5000000000000000000'')]) ''0xab'')
             = JStr ''5000000000000000000''"
    by (simp add: example_transfer_def lock_raw_val_def dict_get_def)
  show ?thesis
    using example_other_lower
    by (simp add: parse_lock_def t r example_timestamp example_sender py_or_def f
        DEFAULT_DECIMALS_def size_bucket_def)
qed

text \<open>
  C6. A transfer whose sender is the contract address, compared without regard to
  letter case, gives no lock record: the lock records, and with them the daily table,
  the distribution and the raw listings, are those of the collection without the item.
\<close>

theorem self_transfer_dropped:
  assumes "lock_sender lib tx = JStr s" and "py_lower s = py_lower CONTRACT_ADDRESS"
  shows "parse_lock lib tx = None
       \<and> process_locks lib (xs @ tx # ys) = process_locks lib (xs @ ys)
       \<and> parse_data lib (xs @ tx # ys) votes = parse_data lib (xs @ ys) votes"
proof -
  have n: "parse_lock lib tx = None"
    by (rule parse_lock_self_transfer[OF assms])
  have p: "process_locks lib (xs @ tx # ys) = process_locks lib (xs @ ys)"
    by (simp add: process_locks_append process_locks_Cons n)
  show ?thesis
    using n p parse_data_cong[OF p refl] by simp
qed

theorem self_transfer_dropped_witness:
  "lock_sender example_lib
     (example_transfer ''2024-03-05T10:00:00Z'' (JObj [(''value'', JStr ''5000000000000000000'')])
        ''0x3d4b1b884a7a1e59fe8589a3296ec8f8cbb6f279'') =
     JStr ''0x3d4b1b884a7a1e59fe8589a3296ec8f8cbb6f279''
   \<and> py_lower ''0x3d4b1b884a7a1e59fe8589a3296ec8f8cbb6f279'' = py_lower CONTRACT_ADDRESS
   \<and> parse_lock example_lib
       (example_transfer ''2024-03-05T10:00:00Z'' (JObj [(''value'', JStr ''5000000000000000000'')])
          ''0x3d4b1b884a7a1e59fe8589a3296ec8f8cbb6f279'') = None
   \<and> process_locks example_lib
       [example_transfer ''2024-03-05T10:00:00Z'' (JObj [(''value'', JStr ''5000000000000000000'')]) ''0xab'',
        example_transfer ''2024-03-05T10:00:00Z'' (JObj [(''value'', JStr ''5000000000000000000'')])
          ''0x3d4b1b884a7a1e59fe8589a3296ec8f8cbb6f279''] =
       [\<lparr>l_date = (2024, 3, 5), l_ts = Datetime (2024, 3, 5) (10, 0, 0), l_amount = 5,
         l_type = ''lock'', l_sender = ''0xab'', l_cat = ''1 and above'', l_order = 5\<rparr>]"
  using self_transfer_dropped[OF example_sender example_self_lower, of example_lib
      "''2024-03-05T10:00:00Z''" "JObj [(''value'', JStr ''5000000000000000000'')]"
      "[example_transfer ''2024-03-05T10:00:00Z'' (JObj [(''value'', JStr ''5000000000000000000'')]) ''0xab'']"
      "[]"]
    example_sender example_self_lower
  by (simp add: process_locks_Cons example_parse_lock process_locks_def)

text \<open>
  C10. A transfer with a valid timestamp and a sender other than the contract whose
  \<^verbatim>\<open>total\<close> is absent or \<^verbatim>\<open>None\<close>, bare or under \<^verbatim>\<open>value\<close>, is kept: its lock record has
  the amount 0 and the lowest bucket, and it adds one to the lock count of its day and
  to the transaction count of that bucket.
\<close>

theorem lock_without_amount:
  assumes ts: "truthy (dict_get tx ''timestamp'')"
    and dt: "parse_iso lib (dict_get tx ''timestamp'') = Some dt"
    and sn: "lock_sender lib tx = JStr s"
    and ns: "py_lower s \<noteq> py_lower CONTRACT_ADDRESS"
    and am: "dict_get tx ''total'' = JNull
             \<or> (\<exists>d. dict_get tx ''total'' = JObj d \<and> dict_get d ''value'' = JNull)"
  shows "parse_lock lib tx =
           Some \<lparr>l_date = date_part dt, l_ts = dt, l_amount = 0, l_type = ''lock'', l_sender = s,
                 l_cat = ''< 0.001'', l_order = 1\<rparr>
       \<and> (\<exists>row\<in>set (df_main (process_locks lib (xs @ tx # ys)) vs).
             r_date row = date_part dt
             \<and> r_lock_count row =
                 Suc (length (filter (\<lambda>r. l_date r = date_part dt) (process_locks lib (xs @ ys)))))
       \<and> (\<exists>b\<in>set (dist_df lib (process_locks lib (xs @ tx # ys))).
             b_cat b = ''< 0.001'' \<and> b_order b = 1
             \<and> b_tx_count b =
                 Suc (length (filter (\<lambda>r. l_cat r = ''< 0.001'' \<and> l_order r = 1)
                        (process_locks lib (xs @ ys)))))"
proof -
  let ?r = "\<lparr>l_date = date_part dt, l_ts = dt, l_amount = 0, l_type = ''lock'', l_sender = s,
                 l_cat = ''< 0.001'', l_order = 1\<rparr>"
  let ?ls = "process_locks lib (xs @ tx # ys)"
  have p: "parse_lock lib tx = Some ?r"
    by (rule parse_lock_no_amount[OF ts dt sn ns am])
  have ls: "?ls = process_locks lib xs @ ?r # process_locks lib ys"
    by (simp add: process_locks_append process_locks_Cons p)
  have ls': "process_locks lib (xs @ ys) = process_locks lib xs @ process_locks lib ys"
    by (rule process_locks_append)
  have mem: "?r \<in> set ?ls" by (simp add: ls)
  from df_main_has_date[OF mem, of vs] obtain row where
    row: "row \<in> set (df_main ?ls vs)" "r_date row = date_part dt" by auto
  have c1: "r_lock_count row =
              Suc (length (filter (\<lambda>r. l_date r = date_part dt) (process_locks lib (xs @ ys))))"
    using df_main_row[OF row(1)] row(2) unfolding ls ls' by simp
  from dist_df_has_bucket[OF mem, of lib] obtain b where
    b: "b \<in> set (dist_df lib ?ls)" "b_cat b = ''< 0.001''" "b_order b = 1"
       "b_tx_count b = length (filter (\<lambda>x. l_cat x = ''< 0.001'' \<and> l_order x = 1) ?ls)"
    by auto
  have c2: "b_tx_count b =
              Suc (length (filter (\<lambda>r. l_cat r = ''< 0.001'' \<and> l_order r = 1)
                     (process_locks lib (xs @ ys))))"
    using b(4) unfolding ls ls' by simp
  show ?thesis
    using p row c1 b(1,2,3) c2 by blast
qed

theorem lock_without_amount_witness:
  "truthy (dict_get (example_transfer ''2024-03-05T10:00:00Z'' JNull ''0xab'') ''timestamp'')
   \<and> parse_iso example_lib (dict_get (example_transfer ''2024-03-05T10:00:00Z'' JNull ''0xab'') ''timestamp'')
       = Some (Datetime (2024, 3, 5) (10, 0, 0))
   \<and> lock_sender example_lib (example_transfer ''2024-03-05T10:00:00Z'' JNull ''0xab'') = JStr ''0xab''
   \<and> py_lower ''0xab'' \<noteq> py_lower CONTRACT_ADDRESS
   \<and> dict_get (example_transfer ''2024-03-05T10:00:00Z'' JNull ''0xab'') ''total'' = JNull
   \<and> parse_lock example_lib (example_transfer ''2024-03-05T10:00:00Z'' JNull ''0xab'') =
       Some \<lparr>l_date = (2024, 3, 5), l_ts = Datetime (2024, 3, 5) (10, 0, 0), l_amount = 0,
             l_type = ''lock'', l_sender = ''0xab'', l_cat = ''< 0.001'', l_order = 1\<rparr>"
proof -
  have t: "dict_get (example_transfer ''2024-03-05T10:00:00Z'' JNull ''0xab'') ''timestamp''
             = JStr ''2024-03-05T10:00:00Z''"
    by (simp add: example_transfer_def dict_get_def)
  have ts: "truthy (dict_get (example_transfer ''2024-03-05T10:00:00Z'' JNull ''0xab'') ''timestamp'')"
    by (simp add: t)
  have dt: "parse_iso example_lib (dict_get (example_transfer ''2024-03-05T10:00:00Z'' JNull ''0xab'') ''timestamp'')
       = Some (Datetime (2024, 3, 5) (10, 0, 0))"
    by (simp add: t example_timestamp)
  have am: "dict_get (example_transfer ''2024-03-05T10:00:00Z'' JNull ''0xab'') ''total'' = JNull
            \<or> (\<exists>d. dict_get (example_transfer ''2024-03-05T10:00:00Z'' JNull ''0xab'') ''total'' = JObj d
                  \<and> dict_get d ''value'' = JNull)"
    by (simp add: example_transfer_def dict_get_def)
  show ?thesis
    using lock_without_amount[OF ts dt example_sender example_other_lower am, of "[]" "[]" "[]"]
      ts dt example_sender[of example_lib] example_other_lower
    by (simp add: example_transfer_def dict_get_def)
qed

subsection \<open>The run\<close>

lemma main_no_new:
  assumes "fetch_incremental lib lock_src lock_params (fst (load_data st)) = Some []"
    and "fetch_incremental lib vote_src [] (snd (load_data st)) = Some []"
  shows "main lib lock_src vote_src writable st =
           Some (st, parse_data lib (fst (load_data st)) (snd (load_data st)))"
  using assms by (cases "load_data st") (simp add: main_def Let_def)

lemma main_persisted:
  assumes "main lib lock_src vote_src True st0 = Some (st, agg)"
  shows "agg = parse_data lib (fst (load_data st)) (snd (load_data st))"
proof -
  obtain el ev where l: "load_data st0 = (el, ev)" by (cases "load_data st0")
  from assms l obtain nl nv where
    nl: "fetch_incremental lib lock_src lock_params el = Some nl"
    and nv: "fetch_incremental lib vote_src [] ev = Some nv"
    by (auto simp: main_def split: Option.bind_splits)
  show ?thesis
  proof (cases "nl \<noteq> [] \<or> nv \<noteq> []")
    case True
    then show ?thesis
      using assms l nl nv by (auto simp: main_def save_data_def load_data_def Let_def)
  next
    case False
    then show ?thesis
      using assms l nl nv by (auto simp: main_def Let_def)
  qed
qed

lemma example_caught_up_fetch:
  "fetch_incremental example_lib (paged_source [[example_item ''0xa'' 0]] 5) lock_params
     [example_item ''0xa'' 0] = Some []"
proof -
  have src: "paged_source [[example_item ''0xa'' 0]] 5 lock_params = Page [example_item ''0xa'' 0] None"
    by (simp add: paged_source_def lock_params_def dict_get_def)
  have sc: "scan_page example_lib (set (map (get_unique_id example_lib) [example_item ''0xa'' 0]), [], False)
              [example_item ''0xa'' 0] =
            (set (map (get_unique_id example_lib) [example_item ''0xa'' 0]), [], True)"
    by (simp add: scan_page_def scan_item_def)
  show ?thesis
    using fetch_loop_stop[where src="paged_source [[example_item ''0xa'' 0]] 5" and params=lock_params
        and reqs="[]", OF src _ sc]
    by (simp add: fetch_incremental_def fetch_trace_def)
qed

lemma example_empty_fetch:
  "fetch_incremental example_lib (paged_source [] 5) [] [] = Some []"
proof -
  have src: "paged_source [] 5 [] = Page [] None"
    by (simp add: paged_source_def dict_get_def)
  show ?thesis
    using fetch_loop_empty_page[where src="paged_source [] 5" and params="[]", OF src]
    by (simp add: fetch_incremental_def fetch_trace_def)
qed

text \<open>
  C9. From a persisted state on which both fetches return no new record, the run leaves
  the file as it is, whether or not the file could be written (nothing is saved), and
  its tables are those of the persisted collections: the same tables as those of the
  run that left this file, when that run could write it.
\<close>

theorem main_idempotent:
  assumes "fetch_incremental lib lock_src lock_params (fst (load_data st)) = Some []"
    and "fetch_incremental lib vote_src [] (snd (load_data st)) = Some []"
  shows "main lib lock_src vote_src writable st =
           Some (st, parse_data lib (fst (load_data st)) (snd (load_data st)))
       \<and> main lib lock_src vote_src False st = main lib lock_src vote_src True st
       \<and> (\<forall>lock_src0 vote_src0 st0 agg0.
            main lib lock_src0 vote_src0 True st0 = Some (st, agg0) \<longrightarrow>
            main lib lock_src vote_src writable st = Some (st, agg0))"
  using main_no_new[OF assms] main_persisted by auto

theorem main_idempotent_witness:
  "fetch_incremental example_lib (paged_source [[example_item ''0xa'' 0]] 5) lock_params
     (fst (load_data (Some ([example_item ''0xa'' 0], [])))) = Some []
   \<and> fetch_incremental example_lib (paged_source [] 5) []
       (snd (load_data (Some ([example_item ''0xa'' 0], [])))) = Some []
   \<and> main example_lib (paged_source [[example_item ''0xa'' 0]] 5) (paged_source [] 5) True
       (Some ([example_item ''0xa'' 0], [])) =
     Some (Some ([example_item ''0xa'' 0], []), parse_data example_lib [example_item ''0xa'' 0] [])"
proof -
  have l: "load_data (Some ([example_item ''0xa'' 0], [])) = ([example_item ''0xa'' 0], [])"
    by (simp add: load_data_def)
  have a: "fetch_incremental example_lib (paged_source [[example_item ''0xa'' 0]] 5) lock_params
     (fst (load_data (Some ([example_item ''0xa'' 0], [])))) = Some []"
    by (simp add: l example_caught_up_fetch)
  have b: "fetch_incremental example_lib (paged_source [] 5) []
       (snd (load_data (Some ([example_item ''0xa'' 0], [])))) = Some []"
    by (simp add: l example_empty_fetch)
  show ?thesis
    using main_idempotent[OF a b, of True] a b by (simp add: l)
qed

subsection \<open>Normalising votes\<close>




















end
